theory Spec2Isabelle
  imports Main
begin

section \<open>Strings as the parser sees them\<close>

text \<open>
  A JavaScript string is modelled as a \<^typ>\<open>string\<close>, one \<^typ>\<open>char\<close> per code unit.
  Only code units below 256 are representable; none of the characters the parser
  inspects (backtick, hash, equals, minus, angle brackets, ampersand, asterisk,
  underscore, backslash, dollar) lies outside that range.  Among the code units
  below 256 the ones that \<open>trim\<close>, \<open>trimEnd\<close> and the regular expression class
  \<open>\s\<close> treat as white space are TAB, LF, VT, FF, CR, SPACE and NBSP.
\<close>

definition is_ws :: "char \<Rightarrow> bool" where
  "is_ws c = (c = CHR 0x09 \<or> c = CHR 0x0A \<or> c = CHR 0x0B \<or> c = CHR 0x0C
            \<or> c = CHR 0x0D \<or> c = CHR 0x20 \<or> c = CHR 0xA0)"

text \<open>The regular expression atom \<open>.\<close> matches every code unit but a line terminator.\<close>

definition is_line_terminator :: "char \<Rightarrow> bool" where
  "is_line_terminator c = (c = CHR 0x0A \<or> c = CHR 0x0D)"

definition trimEnd :: "string \<Rightarrow> string" where
  "trimEnd s = rev (dropWhile is_ws (rev s))"

definition trim :: "string \<Rightarrow> string" where
  "trim s = dropWhile is_ws (trimEnd s)"

text \<open>\<open>String.prototype.repeat\<close>; the source only calls it with a positive count.\<close>

definition js_repeat :: "string \<Rightarrow> int \<Rightarrow> string" where
  "js_repeat s n = concat (replicate (nat n) s)"

text \<open>
  \<open>s.split(/\r?\n/)\<close>: the separator is LF, or CR immediately followed by LF.
  The result always has at least one element.
\<close>

fun split_lines :: "string \<Rightarrow> string list" where
  "split_lines [] = [[]]"
| "split_lines (c # cs) =
     (if c = CHR 0x0D \<and> take 1 cs = [CHR 0x0A] then [] # split_lines (drop 1 cs)
      else if c = CHR 0x0A then [] # split_lines cs
      else (case split_lines cs of
              [] \<Rightarrow> [[c]]
            | l # ls \<Rightarrow> (c # l) # ls))"

text \<open>
  \<open>text.replace(pattern, replacement)\<close> with a string pattern replaces the first
  occurrence of the pattern only.  \<open>split_at_first\<close> finds that occurrence and
  returns what precedes and what follows it.
\<close>

fun split_at_first :: "string \<Rightarrow> string \<Rightarrow> (string \<times> string) option" where
  "split_at_first pat [] = (if pat = [] then Some ([], []) else None)"
| "split_at_first pat (c # cs) =
     (if take (length pat) (c # cs) = pat then Some ([], drop (length pat) (c # cs))
      else (case split_at_first pat cs of
              None \<Rightarrow> None
            | Some (pre, post) \<Rightarrow> Some (c # pre, post)))"

text \<open>
  The replacement string of \<open>replace\<close> is a template: \<open>$$\<close> stands for a dollar
  sign, \<open>$&\<close> for the matched text, \<open>$`\<close> for the text before the match and
  \<open>$'\<close> for the text after it.  With a string pattern there are no capture groups,
  so every other use of \<open>$\<close> is literal.
\<close>

fun get_substitution :: "string \<Rightarrow> string \<Rightarrow> string \<Rightarrow> string \<Rightarrow> string" where
  "get_substitution m pre post [] = []"
| "get_substitution m pre post [c] = [c]"
| "get_substitution m pre post (c # c' # cs) =
     (if c = CHR ''$'' \<and> c' = CHR ''$'' then CHR ''$'' # get_substitution m pre post cs
      else if c = CHR ''$'' \<and> c' = CHR ''&'' then m @ get_substitution m pre post cs
      else if c = CHR ''$'' \<and> c' = CHR 0x60 then pre @ get_substitution m pre post cs
      else if c = CHR ''$'' \<and> c' = CHR 0x27 then post @ get_substitution m pre post cs
      else c # get_substitution m pre post (c' # cs))"

definition js_replace :: "string \<Rightarrow> string \<Rightarrow> string \<Rightarrow> string" where
  "js_replace pat rep s =
     (case split_at_first pat s of
        None \<Rightarrow> s
      | Some (pre, post) \<Rightarrow> pre @ get_substitution pat pre post rep @ post)"

section \<open>Escaping and wrapping\<close>

text \<open>
  \<open>escapeHTMLChars\<close> calls \<open>replace\<close> with the string patterns \<open>&\<close>, then
  \<open><\<close> and \<open>>\<close> in the order of the keys of \<open>SANITIZE_REPLACEMENTS\<close>.
\<close>

definition SANITIZE_REPLACEMENTS :: "(string \<times> string) list" where
  "SANITIZE_REPLACEMENTS = [(''<'', ''&lt;''), (''>'', ''&gt;'')]"

definition escapeHTMLChars :: "string \<Rightarrow> string" where
  "escapeHTMLChars text =
     fold (\<lambda>(k, v) t. js_replace k v t) SANITIZE_REPLACEMENTS (js_replace ''&'' ''&amp;'' text)"

definition wrapWithTag :: "string \<Rightarrow> string \<Rightarrow> string" where
  "wrapWithTag tag text = ''<'' @ tag @ ''>'' @ escapeHTMLChars text @ ''</'' @ tag @ ''>''"

definition isEmpty :: "string \<Rightarrow> bool" where
  "isEmpty str = (length (trim str) = 0)"

section \<open>Block classifier\<close>

text \<open>The entries of the \<open>BLOCK\<close> table.\<close>

datatype block =
  blockquote | code_container_marker | break | atx_heading | setext_heading | plaintext

text \<open>Three backticks anywhere in the text.  The match is the three backticks.\<close>

fun match_code_marker :: "string \<Rightarrow> string option" where
  "match_code_marker [] = None"
| "match_code_marker (c # cs) =
     (if take 3 (c # cs) = [CHR 0x60, CHR 0x60, CHR 0x60] then Some [CHR 0x60, CHR 0x60, CHR 0x60]
      else match_code_marker cs)"

text \<open>
  Leading white space, then one to six hashes (\<open>^\s*#{1,6}\<close>).  Both quantifiers are
  greedy; the match is the white space with at most six of the hashes.
\<close>

definition match_atx :: "string \<Rightarrow> string option" where
  "match_atx s =
     (let hashes = takeWhile (\<lambda>c. c = CHR ''#'') (dropWhile is_ws s)
      in if hashes = [] then None else Some (takeWhile is_ws s @ take 6 hashes))"

text \<open>
  The whole text is a run of one character (equals signs in the first alternative
  \<open>^=+\s*$\<close>, minus signs in the second \<open>^-+\s*$\<close>) followed by white space only.
  The match is the whole text.
\<close>

definition match_underline :: "char \<Rightarrow> string \<Rightarrow> bool" where
  "match_underline d s =
     (takeWhile (\<lambda>c. c = d) s \<noteq> [] \<and> list_all is_ws (dropWhile (\<lambda>c. c = d) s))"

definition match_setext :: "string \<Rightarrow> string option" where
  "match_setext s =
     (if match_underline CHR ''='' s then Some s
      else if match_underline CHR ''-'' s then Some s
      else None)"

text \<open>
  One or more leading \<open>>\<close>, then white space (\<open>^(>+\s*)\<close>).  The match is the run
  of \<open>>\<close> with all the white space that follows it.
\<close>

definition match_blockquote :: "string \<Rightarrow> string option" where
  "match_blockquote s =
     (let marks = takeWhile (\<lambda>c. c = CHR ''>'') s
      in if marks = [] then None
         else Some (marks @ takeWhile is_ws (dropWhile (\<lambda>c. c = CHR ''>'') s)))"

definition BLOCK_MATCHERS :: "((string \<Rightarrow> string option) \<times> block) list" where
  "BLOCK_MATCHERS =
     [(match_code_marker, code_container_marker),
      (match_atx, atx_heading),
      (match_setext, setext_heading),
      (match_blockquote, blockquote)]"

text \<open>
  The loop of \<open>getBlockInfo\<close> over \<open>BLOCK_MATCHERS\<close>: the first matcher that matches
  decides.  When none does the line is plain text, and the second component of the
  result is the number 0 in the source, which no handler reads; it is the empty string
  here.
\<close>

fun first_match :: "((string \<Rightarrow> string option) \<times> block) list \<Rightarrow> string \<Rightarrow> block \<times> string" where
  "first_match [] s = (plaintext, [])"
| "first_match ((matcher, b) # ms) s =
     (case matcher s of
        Some matched \<Rightarrow> (b, matched)
      | None \<Rightarrow> first_match ms s)"

text \<open>
  \<open>getBlockInfo(line, start_pos)\<close>.  The main loop first calls it without a start
  position: \<open>substring(undefined)\<close> is the whole line, the same as position 0.
\<close>

definition getBlockInfo :: "string \<Rightarrow> nat \<Rightarrow> block \<times> string" where
  "getBlockInfo line start_pos =
     (if isEmpty (drop start_pos line) then (break, [])
      else first_match BLOCK_MATCHERS (drop start_pos line))"

section \<open>Block handlers\<close>

text \<open>Decimal digits of a number, as string concatenation produces them.\<close>

fun digits :: "nat \<Rightarrow> string" where
  "digits n =
     (if n < 10 then [''0123456789'' ! n]
      else digits (n div 10) @ [''0123456789'' ! (n mod 10)])"

text \<open>
  Each handler receives \<open>(raw_lines, i, line_start_pos, parsed_lines, matched)\<close>.  It
  may rewrite \<open>parsed_lines\<close>, and it returns either a pair of a text and a line index
  or nothing (\<open>undefined\<close>).  The result here is the list of fragments after the call
  together with the optional pair.

  The heading handler builds a regular expression from the matched text and replaces
  its first match by the empty string.  The matched text consists of white space and
  hashes, which stand for themselves in a regular expression, so this removes the first
  occurrence of the matched text.
\<close>

fun parse :: "block \<Rightarrow> string list \<Rightarrow> nat \<Rightarrow> nat \<Rightarrow> string list \<Rightarrow> string
    \<Rightarrow> string list \<times> (string \<times> nat) option" where
  "parse blockquote raw_lines i line_start_pos parsed_lines matched = (parsed_lines, None)"
| "parse code_container_marker raw_lines i line_start_pos parsed_lines matched = (parsed_lines, None)"
| "parse break raw_lines i line_start_pos parsed_lines matched = (parsed_lines, Some (''<br />'', i))"
| "parse atx_heading raw_lines i line_start_pos parsed_lines matched =
     (let len = length (trim matched)
      in (parsed_lines,
          Some (wrapWithTag (''h'' @ digits len)
                  (trim (js_replace matched [] (drop line_start_pos (raw_lines ! i)))), i)))"
| "parse setext_heading raw_lines i line_start_pos parsed_lines matched =
     (let tag = (if CHR ''='' \<in> set matched then ''h1'' else ''h2'')
      in (if length parsed_lines > 0
          then parsed_lines[length parsed_lines - 1 :=
                 wrapWithTag tag (parsed_lines ! (length parsed_lines - 1))]
          else parsed_lines, None))"
| "parse plaintext raw_lines i line_start_pos parsed_lines matched =
     (parsed_lines, Some (drop line_start_pos (raw_lines ! i), i))"

section \<open>Parser state and the main loop\<close>

text \<open>
  The state object that \<open>reset\<close> installs.  The parser functions are arrow functions,
  so they all share one state object; it is passed in and returned here.
\<close>

record parser_state =
  blockquoteLevel :: int
  insideCodeContainer :: bool
  listLevel :: int
  listType :: "string option"

definition reset :: parser_state where
  "reset = \<lparr>blockquoteLevel = 0, insideCodeContainer = False, listLevel = 0, listType = None\<rparr>"

text \<open>
  What the main loop carries from one iteration to the next: the line index \<open>k\<close>,
  the parser state, the fragments \<open>parsed_lines\<close> and the object
  \<open>not_a_paragraph\<close>, whose keys are fragment indices (a missing key reads as false;
  \<open>empty_object\<close> is the object without keys).
\<close>

definition empty_object :: "nat \<Rightarrow> bool" where
  "empty_object i = False"

record loop_state =
  k :: nat
  state :: parser_state
  parsed_lines :: "string list"
  not_a_paragraph :: "nat \<Rightarrow> bool"

text \<open>The two branches of the loop body that deal with code containers.\<close>

definition code_marker_step :: "string \<Rightarrow> loop_state \<Rightarrow> loop_state" where
  "code_marker_step line ls =
     (let st = (state ls)\<lparr>insideCodeContainer := \<not> insideCodeContainer (state ls)\<rparr>
      in if insideCodeContainer st
         then (let language = drop 3 line
               in ls\<lparr>k := k ls + 1, state := st,
                     parsed_lines := parsed_lines ls @
                       [''<pre'' @ (if isEmpty language then ''>''
                                    else '' class='' @ [CHR 0x22] @ ''lang-'' @ language @ [CHR 0x22] @ ''>'')]\<rparr>)
         else ls\<lparr>k := k ls + 1, state := st, parsed_lines := parsed_lines ls @ [''</pre>'']\<rparr>)"

definition code_content_step :: "string list \<Rightarrow> loop_state \<Rightarrow> loop_state" where
  "code_content_step raw_lines ls =
     ls\<lparr>k := k ls + 1,
        parsed_lines := parsed_lines ls @ [escapeHTMLChars (raw_lines ! k ls) @ [CHR 0x0A]],
        not_a_paragraph := (not_a_paragraph ls)(length (parsed_lines ls) := True)\<rparr>"

text \<open>
  The blockquote branch: open or close as many levels as the depth changed, then
  classify the rest of the line.  The result is the updated loop state with
  \<open>nest_offset\<close> and the new \<open>(block_class, matched)\<close>.
\<close>

definition blockquote_step :: "string \<Rightarrow> string \<Rightarrow> loop_state \<Rightarrow> loop_state \<times> nat \<times> block \<times> string" where
  "blockquote_step line matched ls =
     (let depth_diff = int (length (trim matched)) - blockquoteLevel (state ls);
          tag = ''<'' @ (if depth_diff < 0 then ''/'' else '''') @ ''blockquote>'';
          ls' = (if depth_diff \<noteq> 0
                 then ls\<lparr>parsed_lines := parsed_lines ls @ [js_repeat tag \<bar>depth_diff\<bar>],
                         state := (state ls)\<lparr>blockquoteLevel := blockquoteLevel (state ls) + depth_diff\<rparr>\<rparr>
                 else ls);
          nest_offset = length matched
      in (ls', nest_offset, getBlockInfo line nest_offset))"

text \<open>The \<open>else if\<close> branch next to it, for a line that is not a blockquote line.\<close>

definition blockquote_exit_step :: "loop_state \<Rightarrow> loop_state" where
  "blockquote_exit_step ls =
     (if blockquoteLevel (state ls) > 0
      then ls\<lparr>parsed_lines := parsed_lines ls @
                 [js_repeat ''</blockquote>'' (blockquoteLevel (state ls))]\<rparr>
      else ls)"

text \<open>
  The call of the handler and what the loop does with its result: a pair is pushed and
  moves \<open>k\<close> one past the returned index when that index is at least \<open>k\<close> (otherwise
  \<open>k\<close> stays); with no result \<open>k\<close> is incremented.
\<close>

definition dispatch_step :: "string list \<Rightarrow> nat \<Rightarrow> block \<Rightarrow> string \<Rightarrow> loop_state \<Rightarrow> loop_state" where
  "dispatch_step raw_lines nest_offset block_class matched ls =
     (case parse block_class raw_lines (k ls) nest_offset (parsed_lines ls) matched of
        (pl, Some (text, i)) \<Rightarrow>
          ls\<lparr>parsed_lines := pl @ [text], k := (if i \<ge> k ls then i + 1 else k ls)\<rparr>
      | (pl, None) \<Rightarrow> ls\<lparr>parsed_lines := pl, k := k ls + 1\<rparr>)"

text \<open>One iteration of the \<open>while\<close> loop.\<close>

definition line_step :: "string list \<Rightarrow> loop_state \<Rightarrow> loop_state" where
  "line_step raw_lines ls =
     (let line = trimEnd (raw_lines ! k ls);
          (block_class, matched) = getBlockInfo line 0
      in if block_class = code_container_marker then code_marker_step line ls
         else if insideCodeContainer (state ls) then code_content_step raw_lines ls
         else if block_class = blockquote
              then (case blockquote_step line matched ls of
                      (ls', nest_offset, block_class', matched') \<Rightarrow>
                        dispatch_step raw_lines nest_offset block_class' matched' ls')
              else dispatch_step raw_lines 0 block_class matched (blockquote_exit_step ls))"

text \<open>The \<open>while\<close> loop itself; \<open>None\<close> stands for a loop that never ends.\<close>

partial_function (option) main_loop :: "string list \<Rightarrow> loop_state \<Rightarrow> loop_state option" where
  "main_loop raw_lines ls =
     (if k ls < length raw_lines then main_loop raw_lines (line_step raw_lines ls) else Some ls)"

section \<open>Inline styling\<close>

text \<open>
  The four matchers of \<open>INLINE\<close> have one shape: a delimiter character \<open>d\<close> repeated
  \<open>n\<close> times and not preceded by a backslash, a lazy group of one or more characters
  other than line terminators, and the delimiter again, not preceded by a backslash.

  \<open>find_close\<close> extends the lazy group one character at a time and stops at the
  first position where the closing delimiter matches; it returns the group and the
  text after the match.
\<close>

fun find_close :: "char \<Rightarrow> nat \<Rightarrow> string \<Rightarrow> (string \<times> string) option" where
  "find_close d n [] = None"
| "find_close d n (c # cs) =
     (if is_line_terminator c then None
      else if c \<noteq> CHR 0x5C \<and> take n cs = replicate n d then Some ([c], drop n cs)
      else (case find_close d n cs of
              None \<Rightarrow> None
            | Some (g, rest) \<Rightarrow> Some (c # g, rest)))"

text \<open>
  A match attempt at one position; \<open>prev\<close> is the character before the position, if any.
  The result is the matched text, the group and the text after the match.
\<close>

definition match_at :: "char \<Rightarrow> nat \<Rightarrow> char option \<Rightarrow> string \<Rightarrow> (string \<times> string \<times> string) option" where
  "match_at d n prev s =
     (if prev \<noteq> Some CHR 0x5C \<and> take n s = replicate n d
      then (case find_close d n (drop n s) of
              None \<Rightarrow> None
            | Some (g, rest) \<Rightarrow> Some (replicate n d @ g @ replicate n d, g, rest))
      else None)"

text \<open>
  \<open>matchAll\<close> with a global regular expression: the matches from left to right, each
  search starting where the previous match ended.  Each match is the pair of the
  matched text and the group.
\<close>

function match_all :: "char \<Rightarrow> nat \<Rightarrow> char option \<Rightarrow> string \<Rightarrow> (string \<times> string) list" where
  "match_all d n prev [] = []"
| "match_all d n prev (c # cs) =
     (case match_at d n prev (c # cs) of
        Some (m, g, rest) \<Rightarrow> (m, g) # match_all d n (Some (last m)) rest
      | None \<Rightarrow> match_all d n (Some c) cs)"
  by pat_completeness auto
termination
proof (relation "measure (\<lambda>(d, n, prev, s). length s)")
  have close_shorter: "find_close d n s = Some (g, rest) \<Longrightarrow> length rest < length s"
    for d n s g rest
    by (induction s arbitrary: g) (auto split: if_splits option.splits)
  show "wf (measure (\<lambda>(d, n, prev, s). length s))"
    by simp
  show "((d, n, Some (last m), rest), (d, n, prev, c # cs)) \<in> measure (\<lambda>(d, n, prev, s). length s)"
    if "match_at d n prev (c # cs) = Some x" and "(m, gr) = x" and "(g, rest) = gr"
    for d n prev c cs x m gr g rest
    using that close_shorter [of d n "drop n (c # cs)" g rest]
    by (auto simp: match_at_def split: if_splits option.splits)
  show "((d, n, Some c, cs), (d, n, prev, c # cs)) \<in> measure (\<lambda>(d, n, prev, s). length s)"
    for d n prev c cs
    by simp
qed

record inline_rule =
  original :: string
  matcher :: "string \<Rightarrow> (string \<times> string) list"
  tag :: string

definition INLINE :: "inline_rule list" where
  "INLINE =
     [\<lparr>original = ''**'', matcher = match_all CHR ''*'' 2 None, tag = ''strong''\<rparr>,
      \<lparr>original = ''__'', matcher = match_all CHR ''_'' 2 None, tag = ''strong''\<rparr>,
      \<lparr>original = ''*'', matcher = match_all CHR ''*'' 1 None, tag = ''em''\<rparr>,
      \<lparr>original = ''_'', matcher = match_all CHR ''_'' 1 None, tag = ''em''\<rparr>]"

text \<open>
  One rule applied to a fragment: all matches are collected from the fragment as it is,
  then for each match the first occurrence of the matched text in the current fragment
  is replaced by the wrapped group.
\<close>

definition apply_inline :: "inline_rule \<Rightarrow> string \<Rightarrow> string" where
  "apply_inline r text =
     fold (\<lambda>(m, g) t. js_replace m (wrapWithTag (tag r) g) t) (matcher r text) text"

definition inline_step :: "string \<Rightarrow> string" where
  "inline_step text = fold apply_inline INLINE text"

section \<open>Paragraphs, clean-up and the parser\<close>

text \<open>The paragraph test and wrap for the fragment with index \<open>i\<close>.\<close>

definition paragraph_step :: "(nat \<Rightarrow> bool) \<Rightarrow> nat \<Rightarrow> string \<Rightarrow> string" where
  "paragraph_step np i text =
     (if \<not> np i \<and> CHR ''<'' \<notin> set text then wrapWithTag ''p'' text else text)"

text \<open>
  The \<open>for\<close> loop over the fragments: each fragment is replaced by the result of the
  paragraph step followed by the inline rules.  \<open>paragraph_pass\<close> is the paragraph
  step alone over all fragments.
\<close>

definition transform_pass :: "(nat \<Rightarrow> bool) \<Rightarrow> string list \<Rightarrow> string list" where
  "transform_pass np pl = map (\<lambda>i. inline_step (paragraph_step np i (pl ! i))) [0..<length pl]"

definition paragraph_pass :: "(nat \<Rightarrow> bool) \<Rightarrow> string list \<Rightarrow> string list" where
  "paragraph_pass np pl = map (\<lambda>i. paragraph_step np i (pl ! i)) [0..<length pl]"

text \<open>After the loops: close the blockquote levels that the state still records.\<close>

definition end_cleanup :: "parser_state \<Rightarrow> string list \<Rightarrow> string list" where
  "end_cleanup st pl =
     (if blockquoteLevel st > 0 then pl @ [js_repeat ''</blockquote>'' (blockquoteLevel st)] else pl)"

text \<open>
  The argument of \<open>parseMarkdown\<close> is any JavaScript value; \<open>JSOther\<close> stands for every
  value whose \<open>typeof\<close> is not \<open>string\<close>.
\<close>

datatype js_value = JSString string | JSOther

text \<open>
  \<open>parseMarkdown\<close> takes the shared state and returns the HTML with the state it
  leaves behind.  It does not call \<open>reset\<close>.  \<open>join('''')\<close> is \<^const>\<open>concat\<close>.
\<close>

definition parseMarkdown :: "parser_state \<Rightarrow> js_value \<Rightarrow> (string \<times> parser_state) option" where
  "parseMarkdown st raw_markdown =
     (case raw_markdown of
        JSOther \<Rightarrow> Some ([], st)
      | JSString s \<Rightarrow>
          if length (trim s) = 0 then Some ([], st)
          else (case main_loop (split_lines s)
                       \<lparr>k = 0, state = st, parsed_lines = [], not_a_paragraph = empty_object\<rparr> of
                  None \<Rightarrow> None
                | Some ls \<Rightarrow>
                    Some (concat (end_cleanup (state ls)
                                    (transform_pass (not_a_paragraph ls) (parsed_lines ls))),
                          state ls)))"

text \<open>Number of positions of a text at which a given pattern starts.\<close>

fun count_sub :: "string \<Rightarrow> string \<Rightarrow> nat" where
  "count_sub pat [] = 0"
| "count_sub pat (c # cs) =
     (if take (length pat) (c # cs) = pat then 1 else 0) + count_sub pat cs"

text \<open>
  A fragment that a line inside a code container has produced: it sits at index \<open>j\<close>
  with the given text, its index is a key of \<open>not_a_paragraph\<close>, and either a later
  fragment follows it or the code container is still open.
\<close>

definition fence_fragment :: "nat \<Rightarrow> string \<Rightarrow> loop_state \<Rightarrow> bool" where
  "fence_fragment j text ls =
     (j < length (parsed_lines ls) \<and> parsed_lines ls ! j = text \<and> not_a_paragraph ls j
      \<and> (Suc j < length (parsed_lines ls) \<or> insideCodeContainer (state ls)))"

declare main_loop.simps [code]

section \<open>Auxiliary lemmas\<close>

lemma dispatch_step_k: "k (dispatch_step raw off b m ls) = Suc (k ls)"
  by (cases b) (auto simp: dispatch_step_def Let_def)

lemma line_step_k: "k (line_step raw ls) = Suc (k ls)"
  by (auto simp: line_step_def Let_def code_marker_step_def code_content_step_def
        blockquote_step_def blockquote_exit_step_def dispatch_step_k split: prod.splits)

lemma main_loop_funpow: "main_loop raw ls = Some ((line_step raw ^^ (length raw - k ls)) ls)"
proof (induction "length raw - k ls" arbitrary: ls)
  case 0
  then show ?case by (subst main_loop.simps) simp
next
  case (Suc n)
  from Suc.hyps(2) have lt: "k ls < length raw" and n: "n = length raw - k (line_step raw ls)"
    by (simp_all add: line_step_k)
  have "main_loop raw ls = main_loop raw (line_step raw ls)"
    using lt by (subst main_loop.simps) simp
  also have "\<dots> = Some ((line_step raw ^^ n) (line_step raw ls))"
    using Suc.hyps(1) [OF n] n by simp
  also have "(line_step raw ^^ n) (line_step raw ls) = (line_step raw ^^ Suc n) ls"
    by (simp add: funpow_swap1)
  finally show ?case using Suc.hyps(2) by simp
qed

lemma ws_trim: "list_all is_ws s \<Longrightarrow> trim s = []"
  by (auto simp: trim_def trimEnd_def list_all_iff dest: set_dropWhileD)

lemma parseMarkdown_total: "\<exists>out st'. parseMarkdown st v = Some (out, st')"
  by (cases v) (simp_all add: parseMarkdown_def main_loop_funpow)

lemma wrap_has_lt: "CHR ''<'' \<in> set (wrapWithTag t x)"
  by (simp add: wrapWithTag_def)

lemma paragraph_step_idem: "paragraph_step np i (paragraph_step np i x) = paragraph_step np i x"
  by (simp add: paragraph_step_def wrap_has_lt)

lemma js_repeat_nonpos: "n \<le> 0 \<Longrightarrow> js_repeat s n = []"
  by (simp add: js_repeat_def)

lemma concat_end_cleanup:
  "concat (end_cleanup st pl) = concat pl @ js_repeat ''</blockquote>'' (blockquoteLevel st)"
  by (simp add: end_cleanup_def js_repeat_nonpos)

lemma underline_mem: "match_underline d s \<Longrightarrow> d \<in> set s"
  by (cases s) (auto simp: match_underline_def split: if_splits)

lemma underline_set: "match_underline d s \<Longrightarrow> c \<in> set s \<Longrightarrow> c = d \<or> is_ws c"
proof -
  assume u: "match_underline d s" and c: "c \<in> set s"
  have "set s = set (takeWhile (\<lambda>c. c = d) s) \<union> set (dropWhile (\<lambda>c. c = d) s)"
    by (metis set_append takeWhile_dropWhile_id)
  with c have "c \<in> set (takeWhile (\<lambda>c. c = d) s) \<or> c \<in> set (dropWhile (\<lambda>c. c = d) s)"
    by simp
  then show ?thesis
  proof
    assume "c \<in> set (takeWhile (\<lambda>c. c = d) s)"
    then show ?thesis by (auto dest: set_takeWhileD)
  next
    assume "c \<in> set (dropWhile (\<lambda>c. c = d) s)"
    with u show ?thesis by (auto simp: match_underline_def list_all_iff)
  qed
qed

lemma match_setext_Some:
  "match_setext s = Some m \<Longrightarrow>
     m = s \<and> (match_underline CHR ''='' m \<and> CHR ''='' \<in> set m
              \<or> match_underline CHR ''-'' m \<and> CHR ''='' \<notin> set m)"
  using underline_set [of "CHR ''-''" s "CHR ''=''"] underline_mem [of "CHR ''=''" s]
  by (auto simp: match_setext_def is_ws_def split: if_splits)

lemma getBlockInfo_setext:
  "getBlockInfo line off = (setext_heading, m) \<Longrightarrow> match_setext (drop off line) = Some m"
  by (auto simp: getBlockInfo_def BLOCK_MATCHERS_def split: if_splits option.splits)

lemma match_all_none: "0 < n \<Longrightarrow> d \<notin> set s \<Longrightarrow> match_all d n prev s = []"
proof (induction s arbitrary: prev)
  case Nil
  then show ?case by simp
next
  case (Cons c cs)
  from Cons.prems obtain n' where n: "n = Suc n'"
    by (cases n) auto
  from Cons.prems have "c \<noteq> d"
    by auto
  then have "match_at d n prev (c # cs) = None"
    by (simp add: match_at_def n)
  with Cons show ?case
    by simp
qed

lemma inline_step_id:
  "CHR ''*'' \<notin> set text \<Longrightarrow> CHR ''_'' \<notin> set text \<Longrightarrow> inline_step text = text"
  by (simp add: inline_step_def INLINE_def apply_inline_def match_all_none)

lemma split_at_first_Some:
  "split_at_first pat s = Some (pre, post) \<Longrightarrow> s = pre @ pat @ post"
proof (induction s arbitrary: pre)
  case Nil
  then show ?case by (simp split: if_splits)
next
  case (Cons c cs)
  show ?case
  proof (cases "take (length pat) (c # cs) = pat")
    case True
    with Cons.prems have "pre = []" and "post = drop (length pat) (c # cs)"
      by simp_all
    with True show ?thesis
      by (metis append_Nil append_take_drop_id)
  next
    case False
    with Cons.prems obtain pre' where "split_at_first pat cs = Some (pre', post)" and "pre = c # pre'"
      by (auto split: option.splits)
    with Cons.IH show ?thesis
      by simp
  qed
qed

lemma get_substitution_plain:
  "CHR ''$'' \<notin> set rep \<Longrightarrow> get_substitution m pre post rep = rep"
  by (induction m pre post rep rule: get_substitution.induct) auto

lemma js_replace_notin:
  assumes "CHR ''$'' \<notin> set rep" and "c \<notin> set s" and "c \<notin> set rep"
  shows "c \<notin> set (js_replace pat rep s)"
proof (cases "split_at_first pat s")
  case None
  with assms(2) show ?thesis by (simp add: js_replace_def)
next
  case (Some r)
  obtain pre post where r: "r = (pre, post)"
    by (cases r)
  with Some have "s = pre @ pat @ post"
    by (simp add: split_at_first_Some)
  with assms(2) have "c \<notin> set pre" and "c \<notin> set post"
    by simp_all
  with Some r assms(1,3) show ?thesis
    by (simp add: js_replace_def get_substitution_plain)
qed

lemma escapeHTMLChars_notin:
  assumes "c \<notin> set s" and "c \<notin> set ''&amp;''" and "c \<notin> set ''&lt;''" and "c \<notin> set ''&gt;''"
  shows "c \<notin> set (escapeHTMLChars s)"
proof -
  let ?a = "js_replace ''&'' ''&amp;'' s"
  let ?b = "js_replace ''<'' ''&lt;'' ?a"
  have a: "c \<notin> set ?a"
    by (rule js_replace_notin [OF _ assms(1) assms(2)]) simp
  have b: "c \<notin> set ?b"
    by (rule js_replace_notin [OF _ a assms(3)]) simp
  have "c \<notin> set (js_replace ''>'' ''&gt;'' ?b)"
    by (rule js_replace_notin [OF _ b assms(4)]) simp
  moreover have "escapeHTMLChars s = js_replace ''>'' ''&gt;'' ?b"
    by (simp add: escapeHTMLChars_def SANITIZE_REPLACEMENTS_def)
  ultimately show ?thesis
    by simp
qed

lemma fence_text_plain:
  assumes "CHR ''*'' \<notin> set s" and "CHR ''_'' \<notin> set s"
  shows "inline_step (escapeHTMLChars s @ ''\<newline>'') = escapeHTMLChars s @ ''\<newline>''"
proof -
  have "CHR ''*'' \<notin> set (escapeHTMLChars s)"
    by (rule escapeHTMLChars_notin [OF assms(1)]) simp_all
  moreover have "CHR ''_'' \<notin> set (escapeHTMLChars s)"
    by (rule escapeHTMLChars_notin [OF assms(2)]) simp_all
  ultimately show ?thesis
    by (intro inline_step_id) simp_all
qed

lemma dispatch_step_keeps:
  assumes "Suc j < length (parsed_lines ls)"
  shows "parsed_lines (dispatch_step raw off b m ls) ! j = parsed_lines ls ! j
       \<and> Suc j < length (parsed_lines (dispatch_step raw off b m ls))
       \<and> not_a_paragraph (dispatch_step raw off b m ls) = not_a_paragraph ls
       \<and> state (dispatch_step raw off b m ls) = state ls"
  using assms by (cases b) (auto simp: dispatch_step_def Let_def nth_append)

lemma line_step_keeps:
  assumes "fence_fragment j text ls"
  shows "fence_fragment j text (line_step raw ls)"
proof -
  from assms have j: "j < length (parsed_lines ls)" and f: "parsed_lines ls ! j = text"
    and np: "not_a_paragraph ls j"
    and last: "Suc j < length (parsed_lines ls) \<or> insideCodeContainer (state ls)"
    by (simp_all add: fence_fragment_def)
  obtain b m where cls: "getBlockInfo (trimEnd (raw ! k ls)) 0 = (b, m)"
    by (cases "getBlockInfo (trimEnd (raw ! k ls)) 0")
  show ?thesis
  proof (cases "b = code_container_marker")
    case True
    with cls j f np show ?thesis
      by (simp add: line_step_def code_marker_step_def fence_fragment_def Let_def nth_append)
  next
    case marker: False
    show ?thesis
    proof (cases "insideCodeContainer (state ls)")
      case True
      with cls marker j f np show ?thesis
        by (simp add: line_step_def code_content_step_def fence_fragment_def nth_append)
    next
      case False
      with last have sj: "Suc j < length (parsed_lines ls)"
        by simp
      show ?thesis
      proof (cases "b = blockquote")
        case True
        obtain ls' off b' m' where bq: "blockquote_step (trimEnd (raw ! k ls)) m ls = (ls', off, b', m')"
          by (cases "blockquote_step (trimEnd (raw ! k ls)) m ls")
        then have "Suc j < length (parsed_lines ls')" and "parsed_lines ls' ! j = text"
          and "not_a_paragraph ls' j"
          using sj f np by (auto simp: blockquote_step_def Let_def nth_append split: if_splits)
        with dispatch_step_keeps [of j ls' raw off b' m']
        have "fence_fragment j text (dispatch_step raw off b' m' ls')"
          by (simp add: fence_fragment_def)
        with cls marker False True bq show ?thesis
          by (simp add: line_step_def)
      next
        case nbq: False
        have "Suc j < length (parsed_lines (blockquote_exit_step ls))"
          and "parsed_lines (blockquote_exit_step ls) ! j = text"
          and "not_a_paragraph (blockquote_exit_step ls) j"
          using sj f np by (simp_all add: blockquote_exit_step_def nth_append)
        with dispatch_step_keeps [of j "blockquote_exit_step ls" raw 0 b m]
        have "fence_fragment j text (dispatch_step raw 0 b m (blockquote_exit_step ls))"
          by (simp add: fence_fragment_def)
        with cls marker False nbq show ?thesis
          by (simp add: line_step_def)
      qed
    qed
  qed
qed

lemma funpow_keeps:
  "fence_fragment j text ls \<Longrightarrow> fence_fragment j text ((line_step raw ^^ n) ls)"
  by (induction n) (simp_all add: line_step_keeps)


lemma code_content_fragment:
  assumes "insideCodeContainer (state ls)"
    and "fst (getBlockInfo (trimEnd (raw ! k ls)) 0) \<noteq> code_container_marker"
  shows "line_step raw ls = code_content_step raw ls"
    and "fence_fragment (length (parsed_lines ls)) (escapeHTMLChars (raw ! k ls) @ ''\<newline>'')
           (line_step raw ls)"
proof -
  obtain b m where "getBlockInfo (trimEnd (raw ! k ls)) 0 = (b, m)"
    by (cases "getBlockInfo (trimEnd (raw ! k ls)) 0")
  with assms show "line_step raw ls = code_content_step raw ls"
    by (simp add: line_step_def)
  with assms(1) show "fence_fragment (length (parsed_lines ls))
      (escapeHTMLChars (raw ! k ls) @ ''\<newline>'') (line_step raw ls)"
    by (simp add: code_content_step_def fence_fragment_def)
qed

section \<open>Claims\<close>

text \<open>
  C10.  \<open>parseMarkdown\<close> returns for every input and every state it starts from.  Each
  iteration of the main loop moves the line index \<open>k\<close> forward by one: a handler that
  returns a pair returns the index it was given, and the loop sets \<open>k\<close> one past it;
  every other branch increments \<open>k\<close>.  So the loop ends after one iteration per
  remaining line.
\<close>

theorem parseMarkdown_terminates:
  "(\<exists>out st'. parseMarkdown st raw_markdown = Some (out, st'))
   \<and> (snd (parse b raw_lines i off pl m) = None
        \<or> (\<exists>text. snd (parse b raw_lines i off pl m) = Some (text, i)))
   \<and> k (line_step raw_lines ls) = k ls + 1
   \<and> main_loop raw_lines ls = Some ((line_step raw_lines ^^ (length raw_lines - k ls)) ls)"
proof -
  have "snd (parse b raw_lines i off pl m) = None
        \<or> (\<exists>text. snd (parse b raw_lines i off pl m) = Some (text, i))"
    by (cases b) (simp_all add: Let_def)
  then show ?thesis
    using parseMarkdown_total [of st raw_markdown]
    by (simp add: line_step_k main_loop_funpow)
qed

text \<open>
  C6.  An argument that is not a string, the empty string and a string of white space
  only all make \<open>parseMarkdown\<close> return the empty string, leaving the state as it was.
  There is no error result: every call returns a string.
\<close>

theorem parseMarkdown_blank_input:
  "parseMarkdown st JSOther = Some ([], st)
   \<and> parseMarkdown st (JSString []) = Some ([], st)
   \<and> (list_all is_ws s \<longrightarrow> parseMarkdown st (JSString s) = Some ([], st))
   \<and> parseMarkdown st v \<noteq> None"
proof -
  have other: "parseMarkdown st JSOther = Some ([], st)"
    by (simp add: parseMarkdown_def)
  have empty: "parseMarkdown st (JSString []) = Some ([], st)"
    by (simp add: parseMarkdown_def trim_def trimEnd_def)
  have blank: "list_all is_ws s \<longrightarrow> parseMarkdown st (JSString s) = Some ([], st)"
    by (simp add: parseMarkdown_def ws_trim)
  have "parseMarkdown st v \<noteq> None"
    using parseMarkdown_total [of st v] by auto
  with other empty blank show ?thesis
    by blast
qed

theorem parseMarkdown_blank_input_witness:
  "list_all is_ws '' \<newline>  ''
   \<and> parseMarkdown reset (JSString '' \<newline>  '') = Some ([], reset)"
proof -
  have ws: "list_all is_ws '' \<newline>  ''"
    by (simp add: is_ws_def)
  with parseMarkdown_blank_input [of reset "'' \<newline>  ''"] show ?thesis
    by simp
qed

text \<open>
  C9.  The paragraph step leaves a fragment that contains \<open><\<close> exactly as it is, and
  running the paragraph step over a list of fragments twice gives the same list as
  running it once.
\<close>

theorem paragraph_step_idempotent:
  "(CHR ''<'' \<in> set text \<longrightarrow> paragraph_step np i text = text)
   \<and> paragraph_pass np (paragraph_pass np pl) = paragraph_pass np pl"
  by (simp add: paragraph_pass_def paragraph_step_idem) (simp add: paragraph_step_def)

theorem paragraph_step_idempotent_witness:
  "CHR ''<'' \<in> set ''<br />'' \<and> paragraph_step empty_object 0 ''<br />'' = ''<br />''
   \<and> paragraph_pass empty_object (paragraph_pass empty_object [''a'', ''<br />''])
       = paragraph_pass empty_object [''a'', ''<br />'']
   \<and> paragraph_pass empty_object [''a'', ''<br />''] = [''<p>a</p>'', ''<br />'']"
proof -
  have "paragraph_pass empty_object [''a'', ''<br />''] = [''<p>a</p>'', ''<br />'']"
    by code_simp
  then show ?thesis
    using paragraph_step_idempotent [of "''<br />''" empty_object 0 "[''a'', ''<br />'']"]
    by simp
qed

text \<open>
  C3.  \<open>escapeHTMLChars\<close> replaces the first \<open>&\<close>, the first \<open><\<close> and the first
  \<open>>\<close> of a text and leaves every later occurrence as it is, both when a plain
  fragment is wrapped in a paragraph and when a line inside a code container is
  emitted.
\<close>

theorem escapeHTMLChars_first_occurrence_only:
  "escapeHTMLChars ''a<b<c'' = ''a&lt;b<c''
   \<and> escapeHTMLChars ''1 & 2 & 3'' = ''1 &amp; 2 & 3''
   \<and> escapeHTMLChars ''x > y > z'' = ''x &gt; y > z''
   \<and> parseMarkdown reset (JSString ''1 & 2 & 3'') = Some (''<p>1 &amp; 2 & 3</p>'', reset)
   \<and> parseMarkdown reset (JSString ''```\<newline>a<b<c\<newline>```'')
       = Some (''<pre>a&lt;b<c\<newline></pre>'', reset)"
  by code_simp

text \<open>
  C4.  Parsing the two lines \<open>> a\<close> and \<open>b\<close> from the reset state opens one
  blockquote and closes two: once at the line that leaves the blockquote and once
  more at the end of the document, because the level is still 1 there.
\<close>

theorem blockquote_tags_unbalanced:
  "parseMarkdown reset (JSString ''> a\<newline>b'')
     = Some (''<blockquote><p>a</p></blockquote><p>b</p></blockquote>'',
             reset\<lparr>blockquoteLevel := 1\<rparr>)
   \<and> count_sub ''<blockquote>'' ''<blockquote><p>a</p></blockquote><p>b</p></blockquote>'' = 1
   \<and> count_sub ''</blockquote>'' ''<blockquote><p>a</p></blockquote><p>b</p></blockquote>'' = 2"
  by code_simp

text \<open>
  C8.  Parsing \<open>**bold**\<close> gives a paragraph around \<open><strong>bold</strong>\<close>.  The rules
  of \<open>INLINE\<close> run in the order strong, strong, em, em; the first rule rewrites the
  span, after which the single-asterisk rule finds nothing.  Run on the fragment
  before the first rule, the single-asterisk rule would have matched \<open>**bold*\<close>.
\<close>

theorem bold_example:
  "parseMarkdown reset (JSString ''**bold**'') = Some (''<p><strong>bold</strong></p>'', reset)
   \<and> map original INLINE = [''**'', ''__'', ''*'', ''_'']
   \<and> map tag INLINE = [''strong'', ''strong'', ''em'', ''em'']
   \<and> apply_inline (INLINE ! 0) ''<p>**bold**</p>'' = ''<p><strong>bold</strong></p>''
   \<and> matcher (INLINE ! 2) ''<p><strong>bold</strong></p>'' = []
   \<and> matcher (INLINE ! 2) ''<p>**bold**</p>'' = [(''**bold*'', ''*bold'')]"
  by code_simp

text \<open>
  C1.  A line that is neither a blockquote line nor a code container marker, met
  outside a code container while \<open>blockquoteLevel\<close> is positive, pushes
  \<open>blockquoteLevel\<close> close tags before its own fragment (a setext line then wraps
  that very fragment).  The parser state is the same after the line as before it:
  \<open>blockquoteLevel\<close> is not set to 0.
\<close>

theorem blockquote_exit_keeps_level:
  assumes "\<not> insideCodeContainer (state ls)"
    and "blockquoteLevel (state ls) > 0"
    and "getBlockInfo (trimEnd (raw_lines ! k ls)) 0 = (b, m)"
    and "b \<noteq> blockquote" and "b \<noteq> code_container_marker"
  shows "state (line_step raw_lines ls) = state ls
       \<and> blockquoteLevel (state (line_step raw_lines ls)) \<noteq> 0
       \<and> ((b = setext_heading
            \<and> parsed_lines (line_step raw_lines ls) = parsed_lines ls @
                 [wrapWithTag (if CHR ''='' \<in> set m then ''h1'' else ''h2'')
                    (js_repeat ''</blockquote>'' (blockquoteLevel (state ls)))])
          \<or> (\<exists>text. parsed_lines (line_step raw_lines ls) = parsed_lines ls @
                 [js_repeat ''</blockquote>'' (blockquoteLevel (state ls)), text]))"
proof -
  have step: "line_step raw_lines ls = dispatch_step raw_lines 0 b m (blockquote_exit_step ls)"
    using assms by (simp add: line_step_def)
  have exit: "blockquote_exit_step ls =
      ls\<lparr>parsed_lines := parsed_lines ls @ [js_repeat ''</blockquote>'' (blockquoteLevel (state ls))]\<rparr>"
    using assms(2) by (simp add: blockquote_exit_step_def)
  show ?thesis
    using assms(2,4,5) unfolding step exit
    by (cases b) (simp_all add: dispatch_step_def Let_def)
qed

theorem blockquote_exit_keeps_level_witness:
  "\<not> insideCodeContainer (state \<lparr>k = 1, state = reset\<lparr>blockquoteLevel := 1\<rparr>,
        parsed_lines = [''<blockquote>'', ''a''], not_a_paragraph = empty_object\<rparr>)
   \<and> 0 < blockquoteLevel (state \<lparr>k = 1, state = reset\<lparr>blockquoteLevel := 1\<rparr>,
        parsed_lines = [''<blockquote>'', ''a''], not_a_paragraph = empty_object\<rparr>)
   \<and> getBlockInfo (trimEnd ([''> a'', ''b''] ! 1)) 0 = (plaintext, [])
   \<and> blockquoteLevel (state (line_step [''> a'', ''b'']
        \<lparr>k = 1, state = reset\<lparr>blockquoteLevel := 1\<rparr>,
         parsed_lines = [''<blockquote>'', ''a''], not_a_paragraph = empty_object\<rparr>)) = 1
   \<and> parsed_lines (line_step [''> a'', ''b'']
        \<lparr>k = 1, state = reset\<lparr>blockquoteLevel := 1\<rparr>,
         parsed_lines = [''<blockquote>'', ''a''], not_a_paragraph = empty_object\<rparr>)
       = [''<blockquote>'', ''a'', ''</blockquote>'', ''b'']"
proof -
  let ?ls = "\<lparr>k = 1, state = reset\<lparr>blockquoteLevel := 1\<rparr>,
        parsed_lines = [''<blockquote>'', ''a''], not_a_paragraph = empty_object\<rparr>"
  have h1: "\<not> insideCodeContainer (state ?ls)" by (simp add: reset_def)
  have h2: "0 < blockquoteLevel (state ?ls)" by simp
  have h3: "getBlockInfo (trimEnd ([''> a'', ''b''] ! k ?ls)) 0 = (plaintext, [])" by code_simp
  have pl: "parsed_lines (line_step [''> a'', ''b''] ?ls) = [''<blockquote>'', ''a'', ''</blockquote>'', ''b'']"
    by code_simp
  from blockquote_exit_keeps_level [OF h1 h2 h3]
  have "state (line_step [''> a'', ''b''] ?ls) = state ?ls" by simp
  then have "blockquoteLevel (state (line_step [''> a'', ''b''] ?ls)) = 1" by simp
  with h1 h2 h3 pl show ?thesis by simp
qed

text \<open>
  C7.  For an input that is not blank the output is the joined fragments followed by
  \<open>blockquoteLevel\<close> close tags, where the level is the one the state holds after the
  last line.  The clean-up does not read \<open>insideCodeContainer\<close>: a blockquote left
  open is closed, a code container left open is not.
\<close>

theorem end_of_document_cleanup:
  "(length (trim s) \<noteq> 0 \<longrightarrow>
      (\<exists>ls. main_loop (split_lines s)
               \<lparr>k = 0, state = st, parsed_lines = [], not_a_paragraph = empty_object\<rparr> = Some ls
            \<and> parseMarkdown st (JSString s)
                = Some (concat (transform_pass (not_a_paragraph ls) (parsed_lines ls))
                          @ js_repeat ''</blockquote>'' (blockquoteLevel (state ls)),
                        state ls)))
   \<and> end_cleanup (st\<lparr>insideCodeContainer := True\<rparr>) pl
       = end_cleanup (st\<lparr>insideCodeContainer := False\<rparr>) pl
   \<and> parseMarkdown reset (JSString ''> a'')
       = Some (''<blockquote><p>a</p></blockquote>'', reset\<lparr>blockquoteLevel := 1\<rparr>)
   \<and> parseMarkdown reset (JSString ''```\<newline>code'')
       = Some (''<pre>code\<newline>'', reset\<lparr>insideCodeContainer := True\<rparr>)"
proof -
  have general: "length (trim s) \<noteq> 0 \<longrightarrow>
      (\<exists>ls. main_loop (split_lines s)
               \<lparr>k = 0, state = st, parsed_lines = [], not_a_paragraph = empty_object\<rparr> = Some ls
            \<and> parseMarkdown st (JSString s)
                = Some (concat (transform_pass (not_a_paragraph ls) (parsed_lines ls))
                          @ js_repeat ''</blockquote>'' (blockquoteLevel (state ls)),
                        state ls))"
    by (simp add: parseMarkdown_def main_loop_funpow concat_end_cleanup)
  have flag: "end_cleanup (st\<lparr>insideCodeContainer := True\<rparr>) pl
       = end_cleanup (st\<lparr>insideCodeContainer := False\<rparr>) pl"
    by (simp add: end_cleanup_def)
  have quote: "parseMarkdown reset (JSString ''> a'')
       = Some (''<blockquote><p>a</p></blockquote>'', reset\<lparr>blockquoteLevel := 1\<rparr>)"
    by code_simp
  have fence: "parseMarkdown reset (JSString ''```\<newline>code'')
       = Some (''<pre>code\<newline>'', reset\<lparr>insideCodeContainer := True\<rparr>)"
    by code_simp
  from general flag quote fence show ?thesis by blast
qed

theorem end_of_document_cleanup_witness:
  "length (trim ''> a\<newline>```\<newline>x'') \<noteq> 0
   \<and> (\<exists>ls. main_loop (split_lines ''> a\<newline>```\<newline>x'')
               \<lparr>k = 0, state = reset, parsed_lines = [], not_a_paragraph = empty_object\<rparr> = Some ls
            \<and> parseMarkdown reset (JSString ''> a\<newline>```\<newline>x'')
                = Some (concat (transform_pass (not_a_paragraph ls) (parsed_lines ls))
                          @ js_repeat ''</blockquote>'' (blockquoteLevel (state ls)),
                        state ls))
   \<and> parseMarkdown reset (JSString ''> a\<newline>```\<newline>x'')
       = Some (''<blockquote><p>a</p><pre>x\<newline></blockquote>'',
               reset\<lparr>blockquoteLevel := 1, insideCodeContainer := True\<rparr>)"
proof -
  have ne: "length (trim ''> a\<newline>```\<newline>x'') \<noteq> 0"
    by code_simp
  have out: "parseMarkdown reset (JSString ''> a\<newline>```\<newline>x'')
       = Some (''<blockquote><p>a</p><pre>x\<newline></blockquote>'',
               reset\<lparr>blockquoteLevel := 1, insideCodeContainer := True\<rparr>)"
    by code_simp
  from end_of_document_cleanup [of "''> a\<newline>```\<newline>x''" reset] ne
  have "\<exists>ls. main_loop (split_lines ''> a\<newline>```\<newline>x'')
               \<lparr>k = 0, state = reset, parsed_lines = [], not_a_paragraph = empty_object\<rparr> = Some ls
            \<and> parseMarkdown reset (JSString ''> a\<newline>```\<newline>x'')
                = Some (concat (transform_pass (not_a_paragraph ls) (parsed_lines ls))
                          @ js_repeat ''</blockquote>'' (blockquoteLevel (state ls)),
                        state ls)"
    by blast
  with ne out show ?thesis
    by blast
qed

text \<open>
  C5 (as amended).  The setext handler returns nothing, so the loop pushes no fragment
  for it.  It replaces the last fragment by that fragment's text, passed through
  \<open>escapeHTMLChars\<close>, between \<open><h1>\<close> tags when the matched underline consists of
  equals signs and between \<open><h2>\<close> tags when it consists of minus signs; with no
  fragment so far it changes nothing.  A line classified as a setext heading outside a
  code container and outside a blockquote does this and nothing else.  Parsing
  \<open>Title\<close> followed by \<open>=====\<close> gives \<open><h1>Title</h1>\<close>.
\<close>

theorem setext_heading_rewrites_previous:
  "fst (parse setext_heading raw_lines i off pl m) =
      (if pl = [] then []
       else butlast pl @
         [if CHR ''='' \<in> set m then ''<h1>'' @ escapeHTMLChars (last pl) @ ''</h1>''
          else ''<h2>'' @ escapeHTMLChars (last pl) @ ''</h2>''])
   \<and> snd (parse setext_heading raw_lines i off pl m) = None
   \<and> (getBlockInfo line off = (setext_heading, m) \<longrightarrow>
        m = drop off line
        \<and> (match_underline CHR ''='' m \<and> CHR ''='' \<in> set m
           \<or> match_underline CHR ''-'' m \<and> CHR ''='' \<notin> set m))
   \<and> (\<not> insideCodeContainer (state ls) \<and> blockquoteLevel (state ls) \<le> 0
        \<and> getBlockInfo (trimEnd (raw_lines ! k ls)) 0 = (setext_heading, m) \<longrightarrow>
        line_step raw_lines ls =
          ls\<lparr>parsed_lines := fst (parse setext_heading raw_lines (k ls) 0 (parsed_lines ls) m),
             k := k ls + 1\<rparr>)
   \<and> parseMarkdown reset (JSString ''Title\<newline>====='') = Some (''<h1>Title</h1>'', reset)"
proof -
  have rewrite: "fst (parse setext_heading raw_lines i off pl m) =
      (if pl = [] then []
       else butlast pl @
         [if CHR ''='' \<in> set m then ''<h1>'' @ escapeHTMLChars (last pl) @ ''</h1>''
          else ''<h2>'' @ escapeHTMLChars (last pl) @ ''</h2>''])"
  proof (cases pl rule: rev_cases)
    case Nil
    then show ?thesis by simp
  next
    case (snoc ys y)
    then show ?thesis by (simp add: wrapWithTag_def)
  qed
  have no_result: "snd (parse setext_heading raw_lines i off pl m) = None"
    by (simp add: Let_def)
  have underline: "getBlockInfo line off = (setext_heading, m) \<longrightarrow>
        m = drop off line
        \<and> (match_underline CHR ''='' m \<and> CHR ''='' \<in> set m
           \<or> match_underline CHR ''-'' m \<and> CHR ''='' \<notin> set m)"
    using match_setext_Some [of "drop off line" m] getBlockInfo_setext [of line off m]
    by blast
  have step: "\<not> insideCodeContainer (state ls) \<and> blockquoteLevel (state ls) \<le> 0
        \<and> getBlockInfo (trimEnd (raw_lines ! k ls)) 0 = (setext_heading, m) \<longrightarrow>
        line_step raw_lines ls =
          ls\<lparr>parsed_lines := fst (parse setext_heading raw_lines (k ls) 0 (parsed_lines ls) m),
             k := k ls + 1\<rparr>"
    by (simp add: line_step_def blockquote_exit_step_def dispatch_step_def Let_def)
  have example: "parseMarkdown reset (JSString ''Title\<newline>====='') = Some (''<h1>Title</h1>'', reset)"
    by code_simp
  show ?thesis
    by (intro conjI rewrite no_result underline step example)
qed

theorem setext_heading_rewrites_previous_witness:
  "getBlockInfo ''====='' 0 = (setext_heading, ''====='')
   \<and> \<not> insideCodeContainer reset \<and> blockquoteLevel reset \<le> 0
   \<and> getBlockInfo (trimEnd ([''Title'', ''====='' ] ! 1)) 0 = (setext_heading, ''====='')
   \<and> match_underline CHR ''='' ''=====''
   \<and> parsed_lines (line_step [''Title'', ''====='']
        \<lparr>k = 1, state = reset, parsed_lines = [''Title''], not_a_paragraph = empty_object\<rparr>)
       = [''<h1>Title</h1>'']
   \<and> k (line_step [''Title'', ''====='']
        \<lparr>k = 1, state = reset, parsed_lines = [''Title''], not_a_paragraph = empty_object\<rparr>) = 2"
proof -
  let ?raw = "[''Title'', ''====='']"
  let ?ls = "\<lparr>k = 1, state = reset, parsed_lines = [''Title''], not_a_paragraph = empty_object\<rparr>"
  note inst = setext_heading_rewrites_previous [of ?raw 1 0 "[''Title'']" "''=====''" "''=====''" ?ls]
  have cls: "getBlockInfo ''====='' 0 = (setext_heading, ''====='')"
    by code_simp
  have h1: "\<not> insideCodeContainer reset" and h2: "blockquoteLevel reset \<le> 0"
    by (simp_all add: reset_def)
  have h3: "getBlockInfo (trimEnd (?raw ! 1)) 0 = (setext_heading, ''====='')"
    by code_simp
  have esc: "escapeHTMLChars ''Title'' = ''Title''"
    by code_simp
  from inst cls have ul: "match_underline CHR ''='' ''=====''"
    by simp
  from inst h1 h2 h3 have "line_step ?raw ?ls =
      ?ls\<lparr>parsed_lines := fst (parse setext_heading ?raw (k ?ls) 0 (parsed_lines ?ls) ''=====''),
           k := k ?ls + 1\<rparr>"
    by simp
  moreover from inst have "fst (parse setext_heading ?raw 1 0 [''Title''] ''====='') = [''<h1>Title</h1>'']"
    using esc by simp
  ultimately have "parsed_lines (line_step ?raw ?ls) = [''<h1>Title</h1>'']"
    and "k (line_step ?raw ?ls) = 2"
    by simp_all
  with cls h1 h2 h3 ul show ?thesis
    by simp
qed

text \<open>
  C5 as stated fails: the existing text of the previous fragment is not wrapped as it
  is.  After the break fragment \<open><br />\<close> a line of minus signs gives
  \<open><h2>&lt;br /&gt;</h2>\<close>, not \<open><h2><br /></h2>\<close>.
\<close>

theorem setext_heading_escapes_previous:
  "parse setext_heading [''a'', '''', ''---''] 2 0 [''a'', ''<br />''] ''---''
     \<noteq> ([''a'', ''<h2>'' @ ''<br />'' @ ''</h2>''], None)
   \<and> parse setext_heading [''a'', '''', ''---''] 2 0 [''a'', ''<br />''] ''---''
     = ([''a'', ''<h2>&lt;br /&gt;</h2>''], None)
   \<and> parseMarkdown reset (JSString ''a\<newline>\<newline>---'')
     = Some (''<p>a</p><h2>&lt;br /&gt;</h2>'', reset)"
  by code_simp

text \<open>
  C2 (as amended).  A line met inside a code container that is not a marker pushes its
  raw text, passed through \<open>escapeHTMLChars\<close>, with a line terminator, and records the
  index of that fragment in \<open>not_a_paragraph\<close>.  The main loop ends, and at its end the
  fragment is still at that index, unchanged and still recorded.  The paragraph step
  leaves it as it is.  The inline rules are applied to it as to every fragment: its
  final text is \<open>inline_step\<close> of the emitted text, which is the emitted text itself
  when the raw line contains neither \<open>*\<close> nor \<open>_\<close>.
\<close>

theorem fence_interior_fragment:
  assumes "insideCodeContainer (state ls)"
    and "k ls < length raw_lines"
    and "fst (getBlockInfo (trimEnd (raw_lines ! k ls)) 0) \<noteq> code_container_marker"
  shows "\<exists>final. main_loop raw_lines ls = Some final
      \<and> parsed_lines (line_step raw_lines ls)
          = parsed_lines ls @ [escapeHTMLChars (raw_lines ! k ls) @ ''\<newline>'']
      \<and> length (parsed_lines ls) < length (parsed_lines final)
      \<and> parsed_lines final ! length (parsed_lines ls)
          = escapeHTMLChars (raw_lines ! k ls) @ ''\<newline>''
      \<and> not_a_paragraph final (length (parsed_lines ls))
      \<and> paragraph_step (not_a_paragraph final) (length (parsed_lines ls))
            (parsed_lines final ! length (parsed_lines ls))
          = parsed_lines final ! length (parsed_lines ls)
      \<and> transform_pass (not_a_paragraph final) (parsed_lines final) ! length (parsed_lines ls)
          = inline_step (escapeHTMLChars (raw_lines ! k ls) @ ''\<newline>'')
      \<and> (CHR ''*'' \<in> set (raw_lines ! k ls) \<or> CHR ''_'' \<in> set (raw_lines ! k ls)
          \<or> transform_pass (not_a_paragraph final) (parsed_lines final) ! length (parsed_lines ls)
              = escapeHTMLChars (raw_lines ! k ls) @ ''\<newline>'')"
proof -
  let ?j = "length (parsed_lines ls)"
  let ?text = "escapeHTMLChars (raw_lines ! k ls) @ ''\<newline>''"
  let ?n = "length raw_lines - Suc (k ls)"
  let ?final = "(line_step raw_lines ^^ ?n) (line_step raw_lines ls)"
  have "main_loop raw_lines ls = Some ((line_step raw_lines ^^ (length raw_lines - k ls)) ls)"
    by (rule main_loop_funpow)
  also from assms(2) have "length raw_lines - k ls = Suc ?n"
    by simp
  finally have loop: "main_loop raw_lines ls = Some ?final"
    by (simp add: funpow_swap1)
  have pushed: "parsed_lines (line_step raw_lines ls) = parsed_lines ls @ [?text]"
    using code_content_fragment(1) [OF assms(1,3)] by (simp add: code_content_step_def)
  have "fence_fragment ?j ?text (line_step raw_lines ls)"
    by (rule code_content_fragment(2) [OF assms(1,3)])
  then have kept: "fence_fragment ?j ?text ?final"
    by (rule funpow_keeps)
  then have len: "?j < length (parsed_lines ?final)" and frag: "parsed_lines ?final ! ?j = ?text"
    and flag: "not_a_paragraph ?final ?j"
    by (simp_all add: fence_fragment_def)
  from flag have para: "paragraph_step (not_a_paragraph ?final) ?j (parsed_lines ?final ! ?j)
      = parsed_lines ?final ! ?j"
    by (simp add: paragraph_step_def)
  from len frag para have trans: "transform_pass (not_a_paragraph ?final) (parsed_lines ?final) ! ?j
      = inline_step ?text"
    by (simp add: transform_pass_def)
  have plain: "CHR ''*'' \<in> set (raw_lines ! k ls) \<or> CHR ''_'' \<in> set (raw_lines ! k ls)
      \<or> transform_pass (not_a_paragraph ?final) (parsed_lines ?final) ! ?j = ?text"
  proof (cases "CHR ''*'' \<in> set (raw_lines ! k ls) \<or> CHR ''_'' \<in> set (raw_lines ! k ls)")
    case True
    then show ?thesis by blast
  next
    case False
    then have "inline_step ?text = ?text"
      by (simp add: fence_text_plain)
    with trans show ?thesis by simp
  qed
  show ?thesis
    by (intro exI [of _ ?final] conjI loop pushed len frag flag para trans plain)
qed


theorem fence_interior_fragment_witness:
  "insideCodeContainer (state \<lparr>k = 1, state = reset\<lparr>insideCodeContainer := True\<rparr>,
        parsed_lines = [''<pre>''], not_a_paragraph = empty_object\<rparr>)
   \<and> k \<lparr>k = 1, state = reset\<lparr>insideCodeContainer := True\<rparr>,
        parsed_lines = [''<pre>''], not_a_paragraph = empty_object\<rparr> < length [''```'', ''a<b'', ''```'']
   \<and> fst (getBlockInfo (trimEnd ([''```'', ''a<b'', ''```''] ! 1)) 0) \<noteq> code_container_marker
   \<and> (\<exists>final. main_loop [''```'', ''a<b'', ''```'']
          \<lparr>k = 1, state = reset\<lparr>insideCodeContainer := True\<rparr>,
           parsed_lines = [''<pre>''], not_a_paragraph = empty_object\<rparr> = Some final
        \<and> parsed_lines final ! 1 = ''a&lt;b\<newline>''
        \<and> not_a_paragraph final 1
        \<and> transform_pass (not_a_paragraph final) (parsed_lines final) ! 1 = ''a&lt;b\<newline>'')"
proof -
  let ?raw = "[''```'', ''a<b'', ''```'']"
  let ?ls = "\<lparr>k = 1, state = reset\<lparr>insideCodeContainer := True\<rparr>,
        parsed_lines = [''<pre>''], not_a_paragraph = empty_object\<rparr>"
  have h1: "insideCodeContainer (state ?ls)"
    by simp
  have h2: "k ?ls < length ?raw"
    by simp
  have h3: "fst (getBlockInfo (trimEnd (?raw ! k ?ls)) 0) \<noteq> code_container_marker"
    by code_simp
  have emitted: "escapeHTMLChars ''a<b'' = ''a&lt;b''"
    by code_simp
  have plain: "CHR ''*'' \<notin> set (?raw ! k ?ls)" "CHR ''_'' \<notin> set (?raw ! k ?ls)"
    by simp_all
  have len1: "length (parsed_lines ?ls) = 1"
    by simp
  have line: "?raw ! k ?ls = ''a<b''"
    by simp
  from fence_interior_fragment [OF h1 h2 h3] obtain final where
    loop: "main_loop ?raw ?ls = Some final"
    and frag: "parsed_lines final ! length (parsed_lines ?ls) = escapeHTMLChars (?raw ! k ?ls) @ ''\<newline>''"
    and flag: "not_a_paragraph final (length (parsed_lines ?ls))"
    and out: "CHR ''*'' \<in> set (?raw ! k ?ls) \<or> CHR ''_'' \<in> set (?raw ! k ?ls)
      \<or> transform_pass (not_a_paragraph final) (parsed_lines final) ! length (parsed_lines ?ls)
          = escapeHTMLChars (?raw ! k ?ls) @ ''\<newline>''"
    by blast
  from frag have frag': "parsed_lines final ! 1 = ''a&lt;b\<newline>''"
    unfolding len1 line emitted by simp
  from flag have flag': "not_a_paragraph final 1"
    unfolding len1 .
  from out have out': "transform_pass (not_a_paragraph final) (parsed_lines final) ! 1 = ''a&lt;b\<newline>''"
    unfolding len1 line emitted by simp
  have reached: "\<exists>final. main_loop ?raw ?ls = Some final
      \<and> parsed_lines final ! 1 = ''a&lt;b\<newline>''
      \<and> not_a_paragraph final 1
      \<and> transform_pass (not_a_paragraph final) (parsed_lines final) ! 1 = ''a&lt;b\<newline>''"
    by (intro exI [of _ final] conjI loop frag' flag' out')
  have h3': "fst (getBlockInfo (trimEnd (?raw ! 1)) 0) \<noteq> code_container_marker"
    by code_simp
  show ?thesis
    by (intro conjI h1 h2 h3' reached)
qed

text \<open>
  C2 as stated fails: the inline rules rewrite a fragment from inside a code container.
  The line \<open>*a*\<close> between two markers is emitted as \<open>*a*\<close> with a line terminator
  and recorded in \<open>not_a_paragraph\<close>, and it reaches the output as \<open><em>a</em>\<close>.
\<close>

theorem fence_interior_emphasis_rewritten:
  "parsed_lines (line_step [''```'', ''*a*'', ''```'']
      \<lparr>k = 1, state = reset\<lparr>insideCodeContainer := True\<rparr>,
       parsed_lines = [''<pre>''], not_a_paragraph = empty_object\<rparr>)
     = [''<pre>'', ''*a*\<newline>'']
   \<and> not_a_paragraph (line_step [''```'', ''*a*'', ''```'']
      \<lparr>k = 1, state = reset\<lparr>insideCodeContainer := True\<rparr>,
       parsed_lines = [''<pre>''], not_a_paragraph = empty_object\<rparr>) 1
   \<and> transform_pass (empty_object(1 := True)) [''<pre>'', ''*a*\<newline>'', ''</pre>'']
     = [''<pre>'', ''<em>a</em>\<newline>'', ''</pre>'']
   \<and> ''<em>a</em>\<newline>'' \<noteq> ''*a*\<newline>''
   \<and> parseMarkdown reset (JSString ''```\<newline>*a*\<newline>```'')
     = Some (''<pre><em>a</em>\<newline></pre>'', reset)"
  by code_simp

end
